theory Spec2Isabelle
  imports Main "HOL-Library.Sublist"
begin

section \<open>Strings\<close>

text \<open>
  A Go string is a sequence of bytes, here a \<^typ>\<open>string\<close>. The three functions of Go's
  \<^verbatim>\<open>strings\<close> package that the program calls are modelled on bytes, the way the
  library's own ASCII paths work: \<^verbatim>\<open>ToLower\<close> adds \<^verbatim>\<open>'a' - 'A'\<close> to the bytes
  \<^verbatim>\<open>'A'\<close> .. \<^verbatim>\<open>'Z'\<close>, \<^verbatim>\<open>TrimSpace\<close> removes the six ASCII white-space bytes
  from both ends, \<^verbatim>\<open>Contains\<close> searches for the bytes of the substring. Bytes from
  \<^verbatim>\<open>0x80\<close> on are left as they are, so the model is Go's behaviour on text whose
  letters are ASCII; the case mapping and white space of other scripts belong to Go's
  Unicode tables, not to this program.
\<close>

definition newline :: char where
  "newline = CHR 0x0A"

definition toLowerByte :: "char \<Rightarrow> char" where
  "toLowerByte c =
     (let n = (of_char c :: nat) in if 65 \<le> n \<and> n \<le> 90 then char_of (n + 32) else c)"

definition ToLower :: "string \<Rightarrow> string" where
  "ToLower s = map toLowerByte s"

definition asciiSpace :: "char \<Rightarrow> bool" where
  "asciiSpace c = ((of_char c :: nat) \<in> {9, 10, 11, 12, 13, 32})"

definition TrimSpace :: "string \<Rightarrow> string" where
  "TrimSpace s = rev (dropWhile asciiSpace (rev (dropWhile asciiSpace s)))"

fun Contains :: "string \<Rightarrow> string \<Rightarrow> bool" where
  "Contains [] substr = (substr = [])"
| "Contains (c # s) substr = (prefix substr (c # s) \<or> Contains s substr)"

fun Join :: "string list \<Rightarrow> string \<Rightarrow> string" where
  "Join [] sep = []"
| "Join [e] sep = e"
| "Join (e # e' # elems) sep = e @ sep @ Join (e' # elems) sep"

section \<open>The danger classifier\<close>

text \<open>
  \<^verbatim>\<open>executor.IsDangerous\<close>: the loop over the patterns is the recursion over the list;
  \<^verbatim>\<open>fmt.Sprintf("Command contains dangerous pattern: %s", pattern)\<close> is the
  concatenation with the pattern as it was given.
\<close>

fun IsDangerous :: "string \<Rightarrow> string list \<Rightarrow> bool \<times> string" where
  "IsDangerous command [] = (False, [])"
| "IsDangerous command (pattern # patterns) =
     (if Contains (ToLower command) (ToLower pattern)
      then (True, ''Command contains dangerous pattern: '' @ pattern)
      else IsDangerous command patterns)"



section \<open>Errors, standard input and the observable world\<close>

text \<open>
  A Go \<^verbatim>\<open>error\<close> is \<^verbatim>\<open>io.EOF\<close> or carries a message. A \<^verbatim>\<open>bufio.Reader\<close> on
  standard input is the bytes not yet read and the error its source gives once they are
  used up (\<^verbatim>\<open>io.EOF\<close> for a closed stream).
\<close>

datatype error = EOF | errorString string

fun Error :: "error \<Rightarrow> string" where
  "Error EOF = ''EOF''"
| "Error (errorString s) = s"

record Reader =
  unread :: string
  at_end :: error

text \<open>
  \<^verbatim>\<open>ReadString(delim)\<close> returns the bytes up to and including the first delimiter; when
  the source ends first it returns what was read together with the source's error.
\<close>

definition ReadString :: "char \<Rightarrow> Reader \<Rightarrow> (string \<times> error option) \<times> Reader" where
  "ReadString delim r =
     (if delim \<in> set (unread r)
      then ((takeWhile (\<lambda>c. c \<noteq> delim) (unread r) @ [delim], None),
            r\<lparr>unread := tl (dropWhile (\<lambda>c. c \<noteq> delim) (unread r))\<rparr>)
      else ((unread r, Some (at_end r)), r\<lparr>unread := []\<rparr>))"

text \<open>
  What a run does to the outside: text written to standard output and standard error, and
  the shell subprocess run by \<^verbatim>\<open>cmd.Run()\<close>. \<open>Invoke_Execute\<close> is a ghost event that
  records the entry into \<^verbatim>\<open>SafeExecutor.Execute\<close>.
\<close>

datatype event =
    Stdout string
  | Stderr string
  | Invoke_Execute string
  | Run_shell string string

record World =
  stdin :: Reader
  trace :: "event list"

definition emit :: "event \<Rightarrow> World \<Rightarrow> World" where
  "emit e w = w\<lparr>trace := trace w @ [e]\<rparr>"

section \<open>The display\<close>

definition ShowCommand :: "string \<Rightarrow> World \<Rightarrow> World" where
  "ShowCommand command w = emit (Stdout (''Command: '' @ command @ [newline])) w"

definition confirm_prompt :: string where
  "confirm_prompt = ''Execute? [Y/n]: ''"

definition ConfirmExecution :: "World \<Rightarrow> (bool \<times> error option) \<times> World" where
  "ConfirmExecution w =
     (let w1 = emit (Stdout confirm_prompt) w;
          ((input, err), r) = ReadString newline (stdin w1);
          w2 = w1\<lparr>stdin := r\<rparr>
      in case err of
           Some e \<Rightarrow> ((False, Some e), w2)
         | None \<Rightarrow>
             (let input' = TrimSpace (ToLower input)
              in if input' = [] \<or> input' = ''y'' \<or> input' = ''yes''
                 then ((True, None), w2)
                 else ((False, None), w2)))"

definition ShowError :: "error \<Rightarrow> World \<Rightarrow> World" where
  "ShowError err w = emit (Stderr (''Error: '' @ Error err @ [newline])) w"

definition ShowSuccess :: "string \<Rightarrow> World \<Rightarrow> World" where
  "ShowSuccess output w = emit (Stdout output) w"

text \<open>The banner starts with a newline and the UTF-8 bytes of the warning sign.\<close>

definition warning_banner :: string where
  "warning_banner =
     [newline, CHR 0xE2, CHR 0x9A, CHR 0xA0, CHR 0xEF, CHR 0xB8, CHR 0x8F]
     @ ''  WARNING: Dangerous command detected!'' @ [newline]"

definition danger_prompt :: string where
  "danger_prompt = ''Are you SURE you want to execute this? [yes/no]: ''"

definition ShowDangerWarning :: "string \<Rightarrow> World \<Rightarrow> (bool \<times> error option) \<times> World" where
  "ShowDangerWarning reason w =
     (let w1 = emit (Stdout warning_banner) w;
          w2 = emit (Stdout (''Reason: '' @ reason @ [newline])) w1;
          w3 = emit (Stdout danger_prompt) w2;
          ((input, err), r) = ReadString newline (stdin w3);
          w4 = w3\<lparr>stdin := r\<rparr>
      in case err of
           Some e \<Rightarrow> ((False, Some e), w4)
         | None \<Rightarrow> ((TrimSpace (ToLower input) = ''yes'', None), w4))"

section \<open>The executor\<close>

record SafeExecutor =
  dangerousPatterns :: "string list"
  shell :: string

definition NewSafeExecutor :: "string list \<Rightarrow> string \<Rightarrow> SafeExecutor" where
  "NewSafeExecutor patterns sh =
     \<lparr>dangerousPatterns = patterns, shell = (if sh = [] then ''/bin/zsh'' else sh)\<rparr>"

text \<open>
  \<^verbatim>\<open>SafeExecutor.Execute\<close>. The operating system is the parameter \<open>run\<close>: for a shell and
  a command it gives the combined output of \<^verbatim>\<open>shell -c command\<close> and the error of
  \<^verbatim>\<open>cmd.Run()\<close>, if any.
\<close>

definition Execute ::
  "(string \<Rightarrow> string \<Rightarrow> string \<times> error option) \<Rightarrow> SafeExecutor \<Rightarrow> string \<Rightarrow> World
     \<Rightarrow> (string \<times> error option) \<times> World" where
  "Execute run e command w =
     (let w1 = emit (Invoke_Execute command) w;
          (isDangerous, reason) = IsDangerous command (dangerousPatterns e)
      in if isDangerous
         then (([], Some (errorString (''refused to execute dangerous command: '' @ reason))), w1)
         else
           (let w2 = emit (Run_shell (shell e) command) w1;
                (output, err) = run (shell e) command
            in case err of
                 Some er \<Rightarrow>
                   ((output, Some (errorString (''command execution failed: '' @ Error er))), w2)
               | None \<Rightarrow> ((output, None), w2)))"

section \<open>The program\<close>

record Config =
  Provider :: string
  APIKey :: string
  Model :: string
  OllamaURL :: string
  MaxContextLines :: int
  DangerousPatterns :: "string list"

text \<open>\<^verbatim>\<open>config.getDefaultConfig\<close>, with the default list of dangerous patterns.\<close>

definition getDefaultConfig :: Config where
  "getDefaultConfig =
     \<lparr>Provider = ''ollama'',
      APIKey = [],
      Model = ''qwen2.5-coder:7b'',
      OllamaURL = ''http://localhost:11434'',
      MaxContextLines = 20,
      DangerousPatterns =
        [''rm -rf /'', ''rm -rf /*'', ''rm -rf *'', ''rm -rf ~'', ''rm -rf $HOME'',
         ''> /dev/sda'', ''dd if='', ''mkfs'', ''format'', ''diskutil'', '':(){:|:&};:'',
         ''chmod -R 777 /'', ''| sh'', ''| bash'', ''| zsh'']\<rparr>"

record SystemContext =
  WorkingDir :: string
  Files :: "string list"
  Shell :: string
  OS :: string
  Arch :: string

text \<open>
  The collaborators of \<^verbatim>\<open>main\<close> whose results come from outside the program: the
  command line, the configuration loader, the context collector, the language-model client
  and the operating system that runs the shell.
\<close>

record Environment =
  os_Args :: "string list"
  config_Load :: "error + Config"
  Collect :: "error + SystemContext"
  GenerateCommand :: "Config \<Rightarrow> string \<Rightarrow> SystemContext \<Rightarrow> error + string"
  cmd_Run :: "string \<Rightarrow> string \<Rightarrow> string \<times> error option"

definition showUsage :: "World \<Rightarrow> World" where
  "showUsage w =
     foldl (\<lambda>w' l. emit (Stdout (l @ [newline])) w') w
       [''Usage: zchat <natural language query>'',
        [],
        ''Example:'',
        ''  zchat list the number of lines in analysis_data.csv'',
        ''  zchat find all python files modified in the last week'',
        ''  zchat show disk usage sorted by size'',
        [],
        ''Configuration:'',
        ''  Default provider: Ollama (local)'',
        ''  Default model: qwen2.5-coder:7b'',
        [],
        ''  To use Anthropic instead:'',
        ''    Set ANTHROPIC_API_KEY and ZCHAT_PROVIDER=anthropic'',
        [],
        ''  Or create ~/.config/zchat/config.yaml with:'',
        ''    provider: ollama  # or anthropic'',
        ''    model: qwen2.5-coder:7b'',
        ''    ollama_url: http://localhost:11434'']"

text \<open>
  \<^verbatim>\<open>main\<close> is split where its comments split it. \<open>main_execute\<close> is the part from
  "Confirm execution" to the end, \<open>main_safety\<close> the part from "Display command" through
  "Safety check", which goes on into \<open>main_execute\<close>. The result is the world after the
  run and the exit status of the process (\<^verbatim>\<open>os.Exit\<close>, or 0 when \<^verbatim>\<open>main\<close> returns).
\<close>

definition cancel_message :: string where
  "cancel_message = ''Command execution cancelled.'' @ [newline]"

definition cancelled :: "World \<Rightarrow> World \<times> int" where
  "cancelled w = (emit (Stdout cancel_message) w, 0)"

definition main_execute :: "Environment \<Rightarrow> Config \<Rightarrow> SystemContext \<Rightarrow> string \<Rightarrow> World \<Rightarrow> World \<times> int" where
  "main_execute env cfg sysCtx command w =
     (let ((confirmed, err), w1) = ConfirmExecution w
      in if err \<noteq> None \<or> \<not> confirmed then cancelled w1
         else
           (let exec = NewSafeExecutor (DangerousPatterns cfg) (Shell sysCtx);
                ((output, err'), w2) = Execute (cmd_Run env) exec command w1
            in case err' of
                 Some e \<Rightarrow>
                   (let w3 = ShowError e w2
                    in ((if output \<noteq> [] then emit (Stdout (output @ [newline])) w3 else w3), 1))
               | None \<Rightarrow> (ShowSuccess output w2, 0)))"

definition main_safety :: "Environment \<Rightarrow> Config \<Rightarrow> SystemContext \<Rightarrow> string \<Rightarrow> World \<Rightarrow> World \<times> int" where
  "main_safety env cfg sysCtx command w =
     (let w1 = ShowCommand command w;
          (isDangerous, reason) = IsDangerous command (DangerousPatterns cfg)
      in if isDangerous
         then
           (let ((confirmed, err), w2) = ShowDangerWarning reason w1
            in if err \<noteq> None \<or> \<not> confirmed then cancelled w2
               else main_execute env cfg sysCtx command w2)
         else main_execute env cfg sysCtx command w1)"

text \<open>\<^verbatim>\<open>main\<close> up to the generated command; every failure there exits with status 1.\<close>

definition main :: "Environment \<Rightarrow> World \<Rightarrow> World \<times> int" where
  "main env w =
     (if length (os_Args env) < 2 then (showUsage w, 1)
      else
        (let query = Join (tl (os_Args env)) '' ''
         in case config_Load env of
              Inl err \<Rightarrow> (emit (Stderr (''Error loading config: '' @ Error err @ [newline])) w, 1)
            | Inr cfg \<Rightarrow>
                (case Collect env of
                   Inl err \<Rightarrow>
                     (emit (Stderr (''Error collecting context: '' @ Error err @ [newline])) w, 1)
                 | Inr sysCtx \<Rightarrow>
                     (if Provider cfg \<noteq> ''anthropic'' \<and> Provider cfg \<noteq> ''ollama''
                      then (emit (Stderr (''Unknown provider: '' @ Provider cfg @ [newline])) w, 1)
                      else
                        (case GenerateCommand env cfg query sysCtx of
                           Inl err \<Rightarrow>
                             (emit (Stderr (''Error generating command: '' @ Error err @ [newline])) w, 1)
                         | Inr command \<Rightarrow> main_safety env cfg sysCtx command w)))))"

section \<open>Notions of the specification\<close>

text \<open>
  The spec normalises a line by "trimming surrounding whitespace and lower-casing"; the
  code lower-cases first and trims then.
\<close>

definition normalized :: "string \<Rightarrow> string" where
  "normalized L = ToLower (TrimSpace L)"

definition strict_yes :: "string \<Rightarrow> bool" where
  "strict_yes L = (normalized L = ''yes'')"

definition standard_yes :: "string \<Rightarrow> bool" where
  "standard_yes L = (normalized L = [] \<or> normalized L = ''y'' \<or> normalized L = ''yes'')"

text \<open>
  \<open>answers input L rest\<close>: the unread input starts with the line \<open>L\<close>, ended by a
  newline, and goes on with \<open>rest\<close>. An input with no newline left is a read failure for
  the prompt that reads it.
\<close>

definition answers :: "string \<Rightarrow> string \<Rightarrow> string \<Rightarrow> bool" where
  "answers input L rest = (newline \<notin> set L \<and> input = L @ newline # rest)"

definition next_line :: "string \<Rightarrow> (string \<times> string) option" where
  "next_line input =
     (if newline \<in> set input
      then Some (takeWhile (\<lambda>c. c \<noteq> newline) input, tl (dropWhile (\<lambda>c. c \<noteq> newline) input))
      else None)"

text \<open>
  A prompt is declined when its read fails or its line is not an accepted answer. A run is
  \<open>approved\<close> when every prompt it shows is answered affirmatively: the standard prompt for
  a Safe command, the strict prompt and then the standard prompt for a Dangerous one. It is
  \<open>declined\<close> when one of the prompts it shows is declined.
\<close>

definition strict_declined :: "string \<Rightarrow> bool" where
  "strict_declined input =
     (case next_line input of None \<Rightarrow> True | Some (L, rest) \<Rightarrow> \<not> strict_yes L)"

definition standard_declined :: "string \<Rightarrow> bool" where
  "standard_declined input =
     (case next_line input of None \<Rightarrow> True | Some (L, rest) \<Rightarrow> \<not> standard_yes L)"

definition declined :: "bool \<Rightarrow> string \<Rightarrow> bool" where
  "declined dangerous input =
     (if dangerous
      then strict_declined input
           \<or> (case next_line input of
                 None \<Rightarrow> False
               | Some (L, rest) \<Rightarrow> strict_yes L \<and> standard_declined rest)
      else standard_declined input)"

definition approved :: "bool \<Rightarrow> string \<Rightarrow> bool" where
  "approved dangerous input =
     (case next_line input of
        None \<Rightarrow> False
      | Some (L, rest) \<Rightarrow>
          if dangerous
          then strict_yes L
               \<and> (case next_line rest of None \<Rightarrow> False | Some (L', rest') \<Rightarrow> standard_yes L')
          else standard_yes L)"

text \<open>
  \<open>generated env cfg sysCtx c\<close>: the run gets as far as a generated command \<open>c\<close>, with
  the configuration \<open>cfg\<close> and the system context \<open>sysCtx\<close>.
\<close>

definition generated :: "Environment \<Rightarrow> Config \<Rightarrow> SystemContext \<Rightarrow> string \<Rightarrow> bool" where
  "generated env cfg sysCtx c =
     (2 \<le> length (os_Args env) \<and> config_Load env = Inr cfg \<and> Collect env = Inr sysCtx
      \<and> (Provider cfg = ''anthropic'' \<or> Provider cfg = ''ollama'')
      \<and> GenerateCommand env cfg (Join (tl (os_Args env)) '' '') sysCtx = Inr c)"

text \<open>The shell that \<^verbatim>\<open>NewSafeExecutor\<close> settles on.\<close>

definition shell_of :: "SystemContext \<Rightarrow> string" where
  "shell_of sysCtx = shell (NewSafeExecutor [] (Shell sysCtx))"

text \<open>The events that count as execution: the call of \<^verbatim>\<open>Execute\<close> and the subprocess.\<close>

fun executes :: "event \<Rightarrow> bool" where
  "executes (Invoke_Execute c) = True"
| "executes (Run_shell sh c) = True"
| "executes (Stdout s) = False"
| "executes (Stderr s) = False"

fun printed :: "event \<Rightarrow> bool" where
  "printed (Stdout s) = True"
| "printed e = False"

text \<open>What the display prints for the command and for a Dangerous verdict.\<close>

definition shown_command :: "string \<Rightarrow> event" where
  "shown_command c = Stdout (''Command: '' @ c @ [newline])"

definition danger_warning :: "string \<Rightarrow> event list" where
  "danger_warning reason =
     [Stdout warning_banner, Stdout (''Reason: '' @ reason @ [newline]), Stdout danger_prompt]"

text \<open>What \<^verbatim>\<open>main\<close> reports, and its exit status, for the result of the subprocess.\<close>

fun run_report :: "string \<times> error option \<Rightarrow> event list \<times> int" where
  "run_report (output, None) = ([Stdout output], 0)"
| "run_report (output, Some er) =
     (Stderr (''Error: command execution failed: '' @ Error er @ [newline])
        # (if output \<noteq> [] then [Stdout (output @ [newline])] else []), 1)"

section \<open>A concrete run\<close>

text \<open>
  A run with the default configuration in which the model answers with the command
  \<open>cmd\<close>, the user types \<open>input\<close> and the shell, if it is started, prints \<open>ok\<close>.
\<close>

definition example_ctx :: SystemContext where
  "example_ctx =
     \<lparr>WorkingDir = ''/home/user'', Files = [], Shell = ''/bin/zsh'', OS = ''linux'',
      Arch = ''amd64''\<rparr>"

definition example_env :: "string \<Rightarrow> Environment" where
  "example_env cmd =
     \<lparr>os_Args = [''zchat'', ''clean'', ''up''],
      config_Load = Inr getDefaultConfig,
      Collect = Inr example_ctx,
      GenerateCommand = (\<lambda>cfg query sysCtx. Inr cmd),
      cmd_Run = (\<lambda>sh c. (''ok'' @ [newline], None))\<rparr>"

definition example_world :: "string \<Rightarrow> World" where
  "example_world input = \<lparr>stdin = \<lparr>unread = input, at_end = EOF\<rparr>, trace = []\<rparr>"

section \<open>Properties of the strings and the reader\<close>




lemma asciiSpace_toLowerByte: "asciiSpace (toLowerByte c) = asciiSpace c"
  unfolding toLowerByte_def asciiSpace_def Let_def
  by auto

lemma TrimSpace_ToLower: "TrimSpace (ToLower s) = ToLower (TrimSpace s)"
  unfolding TrimSpace_def ToLower_def
  by (simp add: dropWhile_map rev_map comp_def asciiSpace_toLowerByte)

lemma asciiSpace_newline: "asciiSpace newline"
  by (simp add: asciiSpace_def newline_def)

lemma dropWhile_all: "\<forall>c\<in>set s. P c \<Longrightarrow> dropWhile P s = []"
  by (induction s) auto

lemma TrimSpace_line: "TrimSpace (s @ [newline]) = TrimSpace s"
proof (cases "\<forall>c\<in>set s. asciiSpace c")
  case True
  then have "\<forall>c\<in>set (s @ [newline]). asciiSpace c"
    by (simp add: asciiSpace_newline)
  then have a: "dropWhile asciiSpace (s @ [newline]) = []"
    by (rule dropWhile_all)
  from True have b: "dropWhile asciiSpace s = []"
    by (rule dropWhile_all)
  show ?thesis by (simp only: TrimSpace_def a b)
next
  case False
  then obtain x where "x \<in> set s" "\<not> asciiSpace x" by blast
  then have "dropWhile asciiSpace (s @ [newline]) = dropWhile asciiSpace s @ [newline]"
    by (simp add: dropWhile_append1)
  then show ?thesis by (simp add: TrimSpace_def asciiSpace_newline)
qed

lemma takeWhile_line: "d \<notin> set L \<Longrightarrow> takeWhile (\<lambda>c. c \<noteq> d) (L @ d # rest) = L"
  by (induction L) auto

lemma dropWhile_line: "d \<notin> set L \<Longrightarrow> dropWhile (\<lambda>c. c \<noteq> d) (L @ d # rest) = d # rest"
  by (induction L) auto

lemma ReadString_line:
  "newline \<notin> set L \<Longrightarrow> unread r = L @ newline # rest \<Longrightarrow>
   ReadString newline r = ((L @ [newline], None), r\<lparr>unread := rest\<rparr>)"
  by (simp add: ReadString_def takeWhile_line dropWhile_line)

lemma ReadString_end:
  "newline \<notin> set (unread r) \<Longrightarrow>
   ReadString newline r = ((unread r, Some (at_end r)), r\<lparr>unread := []\<rparr>)"
  by (simp add: ReadString_def)




text \<open>
  Claim C8. With no pattern every command is Safe, and the empty command is Dangerous
  exactly when the empty string is one of the patterns.
\<close>

theorem IsDangerous_empty:
  "IsDangerous C [] = (False, []) \<and> (fst (IsDangerous [] P) \<longleftrightarrow> [] \<in> set P)"
proof -
  have "fst (IsDangerous [] P) \<longleftrightarrow> [] \<in> set P"
    by (induction P) (auto simp: ToLower_def)
  then show ?thesis by simp
qed



lemma answers_cases: "newline \<in> set input \<Longrightarrow> \<exists>L rest. answers input L rest"
  unfolding answers_def by (metis split_list_first)

lemma code_normalized: "TrimSpace (ToLower (L @ [newline])) = normalized L"
proof -
  have "ToLower (L @ [newline]) = ToLower L @ [newline]"
    by (simp add: ToLower_def toLowerByte_def newline_def)
  then show ?thesis
    by (simp add: TrimSpace_line TrimSpace_ToLower normalized_def)
qed

lemma ShowDangerWarning_line:
  assumes "answers (unread (stdin w)) L rest"
  shows "ShowDangerWarning reason w =
     ((strict_yes L, None),
      w\<lparr>stdin := (stdin w)\<lparr>unread := rest\<rparr>,
        trace := trace w @ [Stdout warning_banner, Stdout (''Reason: '' @ reason @ [newline]),
                  Stdout danger_prompt]\<rparr>)"
proof -
  from assms have "ReadString newline (stdin w) = ((L @ [newline], None), (stdin w)\<lparr>unread := rest\<rparr>)"
    by (simp add: answers_def ReadString_line)
  then show ?thesis
    by (simp add: ShowDangerWarning_def emit_def code_normalized strict_yes_def)
qed

lemma ShowDangerWarning_end:
  assumes "newline \<notin> set (unread (stdin w))"
  shows "ShowDangerWarning reason w =
     ((False, Some (at_end (stdin w))),
      w\<lparr>stdin := (stdin w)\<lparr>unread := []\<rparr>,
        trace := trace w @ [Stdout warning_banner, Stdout (''Reason: '' @ reason @ [newline]),
                  Stdout danger_prompt]\<rparr>)"
  using assms
  by (simp add: ShowDangerWarning_def emit_def ReadString_end)

lemma ConfirmExecution_line:
  assumes "answers (unread (stdin w)) L rest"
  shows "ConfirmExecution w =
     ((standard_yes L, None),
      w\<lparr>stdin := (stdin w)\<lparr>unread := rest\<rparr>, trace := trace w @ [Stdout confirm_prompt]\<rparr>)"
proof -
  from assms have "ReadString newline (stdin w) = ((L @ [newline], None), (stdin w)\<lparr>unread := rest\<rparr>)"
    by (simp add: answers_def ReadString_line)
  then show ?thesis
    by (simp add: ConfirmExecution_def emit_def code_normalized standard_yes_def Let_def)
qed

lemma ConfirmExecution_end:
  assumes "newline \<notin> set (unread (stdin w))"
  shows "ConfirmExecution w =
     ((False, Some (at_end (stdin w))),
      w\<lparr>stdin := (stdin w)\<lparr>unread := []\<rparr>, trace := trace w @ [Stdout confirm_prompt]\<rparr>)"
  using assms
  by (simp add: ConfirmExecution_def emit_def ReadString_end)

section \<open>The executor and the program, case by case\<close>

lemma Execute_dangerous:
  assumes "fst (IsDangerous c (dangerousPatterns e))"
  shows "Execute run e c w =
     (([], Some (errorString (''refused to execute dangerous command: ''
                   @ snd (IsDangerous c (dangerousPatterns e))))),
      w\<lparr>trace := trace w @ [Invoke_Execute c]\<rparr>)"
  using assms
  by (cases "IsDangerous c (dangerousPatterns e)") (simp add: Execute_def emit_def Let_def)

lemma Execute_safe:
  assumes "\<not> fst (IsDangerous c (dangerousPatterns e))"
  shows "Execute run e c w =
     ((fst (run (shell e) c),
       map_option (\<lambda>er. errorString (''command execution failed: '' @ Error er))
         (snd (run (shell e) c))),
      w\<lparr>trace := trace w @ [Invoke_Execute c, Run_shell (shell e) c]\<rparr>)"
proof -
  obtain out err where r: "run (shell e) c = (out, err)"
    by (cases "run (shell e) c")
  from assms show ?thesis
    by (cases "IsDangerous c (dangerousPatterns e)"; cases err)
      (simp_all add: Execute_def emit_def Let_def r)
qed

lemma NewSafeExecutor_patterns: "dangerousPatterns (NewSafeExecutor P sh) = P"
  by (simp add: NewSafeExecutor_def)

lemma main_execute_end:
  assumes "newline \<notin> set (unread (stdin w))"
  shows "main_execute env cfg sysCtx c w =
     (w\<lparr>stdin := (stdin w)\<lparr>unread := []\<rparr>,
        trace := trace w @ [Stdout confirm_prompt, Stdout cancel_message]\<rparr>, 0)"
  by (simp add: main_execute_def ConfirmExecution_end [OF assms] cancelled_def emit_def Let_def)

lemma main_execute_no:
  assumes "answers (unread (stdin w)) L rest" and "\<not> standard_yes L"
  shows "main_execute env cfg sysCtx c w =
     (w\<lparr>stdin := (stdin w)\<lparr>unread := rest\<rparr>,
        trace := trace w @ [Stdout confirm_prompt, Stdout cancel_message]\<rparr>, 0)"
  using assms(2)
  by (simp add: main_execute_def ConfirmExecution_line [OF assms(1)] cancelled_def emit_def Let_def)

lemma main_execute_refused:
  assumes "answers (unread (stdin w)) L rest" and "standard_yes L"
    and "fst (IsDangerous c (DangerousPatterns cfg))"
  shows "main_execute env cfg sysCtx c w =
     (w\<lparr>stdin := (stdin w)\<lparr>unread := rest\<rparr>,
        trace := trace w @ [Stdout confirm_prompt, Invoke_Execute c,
          Stderr (''Error: refused to execute dangerous command: ''
                    @ snd (IsDangerous c (DangerousPatterns cfg)) @ [newline])]\<rparr>, 1)"
proof -
  have d: "fst (IsDangerous c (dangerousPatterns (NewSafeExecutor (DangerousPatterns cfg) (Shell sysCtx))))"
    using assms(3) by (simp add: NewSafeExecutor_def)
  show ?thesis
    using assms(2)
    by (simp add: main_execute_def ConfirmExecution_line [OF assms(1)] Execute_dangerous [OF d]
        ShowError_def emit_def Let_def NewSafeExecutor_patterns)
qed

lemma main_execute_run:
  assumes "answers (unread (stdin w)) L rest" and "standard_yes L"
    and "\<not> fst (IsDangerous c (DangerousPatterns cfg))"
  shows "main_execute env cfg sysCtx c w =
     (w\<lparr>stdin := (stdin w)\<lparr>unread := rest\<rparr>,
        trace := trace w @ [Stdout confirm_prompt, Invoke_Execute c, Run_shell (shell_of sysCtx) c]
                  @ fst (run_report (cmd_Run env (shell_of sysCtx) c))\<rparr>,
      snd (run_report (cmd_Run env (shell_of sysCtx) c)))"
proof -
  have d: "\<not> fst (IsDangerous c (dangerousPatterns (NewSafeExecutor (DangerousPatterns cfg) (Shell sysCtx))))"
    using assms(3) by (simp add: NewSafeExecutor_def)
  have sh: "shell (NewSafeExecutor (DangerousPatterns cfg) (Shell sysCtx)) = shell_of sysCtx"
    by (simp add: NewSafeExecutor_def shell_of_def)
  obtain out err where r: "cmd_Run env (shell_of sysCtx) c = (out, err)"
    by (cases "cmd_Run env (shell_of sysCtx) c")
  show ?thesis
    using assms(2)
    by (cases err)
      (simp_all add: main_execute_def ConfirmExecution_line [OF assms(1)] Execute_safe [OF d]
        sh r ShowError_def ShowSuccess_def emit_def Let_def)
qed

lemma ShowCommand_shown: "ShowCommand c w = w\<lparr>trace := trace w @ [shown_command c]\<rparr>"
  by (simp add: ShowCommand_def shown_command_def emit_def)

lemma main_safety_safe:
  assumes "\<not> fst (IsDangerous c (DangerousPatterns cfg))"
  shows "main_safety env cfg sysCtx c w =
     main_execute env cfg sysCtx c (w\<lparr>trace := trace w @ [shown_command c]\<rparr>)"
  using assms
  by (cases "IsDangerous c (DangerousPatterns cfg)")
    (simp add: main_safety_def ShowCommand_shown Let_def)

lemma main_safety_strict_end:
  assumes "fst (IsDangerous c (DangerousPatterns cfg))"
    and "newline \<notin> set (unread (stdin w))"
  shows "main_safety env cfg sysCtx c w =
     (w\<lparr>stdin := (stdin w)\<lparr>unread := []\<rparr>,
        trace := trace w @ shown_command c # danger_warning (snd (IsDangerous c (DangerousPatterns cfg)))
                  @ [Stdout cancel_message]\<rparr>, 0)"
proof -
  let ?w1 = "w\<lparr>trace := trace w @ [shown_command c]\<rparr>"
  have e: "newline \<notin> set (unread (stdin ?w1))"
    using assms(2) by simp
  show ?thesis
    using assms(1)
    by (cases "IsDangerous c (DangerousPatterns cfg)")
      (simp add: main_safety_def ShowCommand_shown Let_def
        ShowDangerWarning_end [OF e] cancelled_def danger_warning_def emit_def)
qed

lemma main_safety_strict_no:
  assumes "fst (IsDangerous c (DangerousPatterns cfg))"
    and "answers (unread (stdin w)) L rest" and "\<not> strict_yes L"
  shows "main_safety env cfg sysCtx c w =
     (w\<lparr>stdin := (stdin w)\<lparr>unread := rest\<rparr>,
        trace := trace w @ shown_command c # danger_warning (snd (IsDangerous c (DangerousPatterns cfg)))
                  @ [Stdout cancel_message]\<rparr>, 0)"
proof -
  let ?w1 = "w\<lparr>trace := trace w @ [shown_command c]\<rparr>"
  have e: "answers (unread (stdin ?w1)) L rest"
    using assms(2) by simp
  show ?thesis
    using assms(1,3)
    by (cases "IsDangerous c (DangerousPatterns cfg)")
      (simp add: main_safety_def ShowCommand_shown Let_def
        ShowDangerWarning_line [OF e] cancelled_def danger_warning_def emit_def)
qed

lemma main_safety_strict_yes:
  assumes "fst (IsDangerous c (DangerousPatterns cfg))"
    and "answers (unread (stdin w)) L rest" and "strict_yes L"
  shows "main_safety env cfg sysCtx c w =
     main_execute env cfg sysCtx c
       (w\<lparr>stdin := (stdin w)\<lparr>unread := rest\<rparr>,
          trace := trace w @ shown_command c
                     # danger_warning (snd (IsDangerous c (DangerousPatterns cfg)))\<rparr>)"
proof -
  let ?w1 = "w\<lparr>trace := trace w @ [shown_command c]\<rparr>"
  have e: "answers (unread (stdin ?w1)) L rest"
    using assms(2) by simp
  show ?thesis
    using assms(1,3)
    by (cases "IsDangerous c (DangerousPatterns cfg)")
      (simp add: main_safety_def ShowCommand_shown Let_def
        ShowDangerWarning_line [OF e] danger_warning_def)
qed

lemma main_generated:
  assumes "generated env cfg sysCtx c"
  shows "main env w = main_safety env cfg sysCtx c w"
  using assms by (auto simp: generated_def main_def)


section \<open>The gate: declined runs\<close>

lemma next_line_answers: "next_line input = Some (L, rest) \<longleftrightarrow> answers input L rest"
proof
  assume "next_line input = Some (L, rest)"
  then have n: "newline \<in> set input"
    and L: "L = takeWhile (\<lambda>c. c \<noteq> newline) input"
    and r: "rest = tl (dropWhile (\<lambda>c. c \<noteq> newline) input)"
    by (auto simp: next_line_def split: if_splits)
  from n obtain L' rest' where a: "answers input L' rest'"
    using answers_cases by blast
  then have "L = L'" "rest = rest'"
    using L r by (simp_all add: answers_def takeWhile_line dropWhile_line)
  with a show "answers input L rest" by simp
next
  assume "answers input L rest"
  then show "next_line input = Some (L, rest)"
    by (simp add: answers_def next_line_def takeWhile_line dropWhile_line)
qed

lemma next_line_None: "next_line input = None \<longleftrightarrow> newline \<notin> set input"
  by (simp add: next_line_def)

lemma not_approved_declined: "\<not> approved d input \<Longrightarrow> declined d input"
  by (auto simp: approved_def declined_def strict_declined_def standard_declined_def
      split: option.splits if_splits)

lemma count_warning:
  "count_list (shown_command c # danger_warning reason) (Stdout danger_prompt) = 1"
  "count_list (shown_command c # danger_warning reason) (Stdout confirm_prompt) = 0"
  by (simp_all add: shown_command_def danger_warning_def danger_prompt_def confirm_prompt_def
      warning_banner_def)

lemma printed_warning: "\<forall>e\<in>set (shown_command c # danger_warning reason). printed e"
  by (simp add: shown_command_def danger_warning_def)

lemma main_execute_declined:
  assumes "standard_declined (unread (stdin w))"
  shows "\<exists>r. main_execute env cfg sysCtx c w =
     (w\<lparr>stdin := (stdin w)\<lparr>unread := r\<rparr>,
        trace := trace w @ [Stdout confirm_prompt, Stdout cancel_message]\<rparr>, 0)"
proof (cases "next_line (unread (stdin w))")
  case None
  then have "newline \<notin> set (unread (stdin w))"
    by (simp add: next_line_None)
  then show ?thesis
    using main_execute_end by blast
next
  case (Some a)
  obtain L rest where n: "next_line (unread (stdin w)) = Some (L, rest)"
    using Some by (cases a) simp
  with assms have "\<not> standard_yes L"
    by (simp add: standard_declined_def)
  moreover from n have "answers (unread (stdin w)) L rest"
    by (simp add: next_line_answers)
  ultimately obtain L rest where a: "answers (unread (stdin w)) L rest" and "\<not> standard_yes L"
    by blast
  then show ?thesis
    using main_execute_no by blast
qed

lemma main_safety_declined:
  assumes "declined (fst (IsDangerous c (DangerousPatterns cfg))) (unread (stdin w))"
  shows "snd (main_safety env cfg sysCtx c w) = 0
     \<and> (\<exists>evs. trace (fst (main_safety env cfg sysCtx c w)) = trace w @ evs @ [Stdout cancel_message]
          \<and> (\<forall>e\<in>set evs. printed e)
          \<and> count_list evs (Stdout danger_prompt) \<le> 1
          \<and> count_list evs (Stdout confirm_prompt) \<le> 1)"
proof (cases "fst (IsDangerous c (DangerousPatterns cfg))")
  case False
  let ?w1 = "w\<lparr>trace := trace w @ [shown_command c]\<rparr>"
  from False assms have "standard_declined (unread (stdin ?w1))"
    by (simp add: declined_def)
  then obtain r where "main_execute env cfg sysCtx c ?w1 =
     (?w1\<lparr>stdin := (stdin ?w1)\<lparr>unread := r\<rparr>,
        trace := trace ?w1 @ [Stdout confirm_prompt, Stdout cancel_message]\<rparr>, 0)"
    using main_execute_declined by blast
  then have m: "main_safety env cfg sysCtx c w =
     (?w1\<lparr>stdin := (stdin ?w1)\<lparr>unread := r\<rparr>,
        trace := trace ?w1 @ [Stdout confirm_prompt, Stdout cancel_message]\<rparr>, 0)"
    by (simp only: main_safety_safe [OF False])
  show ?thesis
    unfolding m
    by (rule conjI, simp, rule exI [of _ "[shown_command c, Stdout confirm_prompt]"])
      (simp add: shown_command_def danger_prompt_def confirm_prompt_def)
next
  case True
  let ?reason = "snd (IsDangerous c (DangerousPatterns cfg))"
  let ?evs = "shown_command c # danger_warning ?reason"
  show ?thesis
  proof (cases "strict_declined (unread (stdin w))")
    case sd: True
    have "\<exists>r. main_safety env cfg sysCtx c w =
       (w\<lparr>stdin := (stdin w)\<lparr>unread := r\<rparr>, trace := trace w @ ?evs @ [Stdout cancel_message]\<rparr>, 0)"
    proof (cases "next_line (unread (stdin w))")
      case None
      then have "newline \<notin> set (unread (stdin w))"
        by (simp add: next_line_None)
      from main_safety_strict_end [OF True this] show ?thesis by auto
    next
      case (Some a)
      obtain L rest where n: "next_line (unread (stdin w)) = Some (L, rest)"
        using Some by (cases a) simp
      with sd have "\<not> strict_yes L"
        by (simp add: strict_declined_def)
      moreover from n have "answers (unread (stdin w)) L rest"
        by (simp add: next_line_answers)
      ultimately obtain L rest where "answers (unread (stdin w)) L rest" and "\<not> strict_yes L"
        by blast
      from main_safety_strict_no [OF True this] show ?thesis by auto
    qed
    then obtain r where m: "main_safety env cfg sysCtx c w =
       (w\<lparr>stdin := (stdin w)\<lparr>unread := r\<rparr>, trace := trace w @ ?evs @ [Stdout cancel_message]\<rparr>, 0)"
      by blast
    show ?thesis
      unfolding m
      by (rule conjI, simp, rule exI [of _ ?evs])
        (simp add: count_warning printed_warning del: count_list.simps)
  next
    case False
    with True assms obtain L rest where n: "next_line (unread (stdin w)) = Some (L, rest)"
      and y: "strict_yes L" and d: "standard_declined rest"
      by (auto simp: declined_def split: option.splits)
    from n have a: "answers (unread (stdin w)) L rest"
      by (simp add: next_line_answers)
    let ?w2 = "w\<lparr>stdin := (stdin w)\<lparr>unread := rest\<rparr>, trace := trace w @ ?evs\<rparr>"
    from d have "standard_declined (unread (stdin ?w2))"
      by simp
    then obtain r where "main_execute env cfg sysCtx c ?w2 =
       (?w2\<lparr>stdin := (stdin ?w2)\<lparr>unread := r\<rparr>,
          trace := trace ?w2 @ [Stdout confirm_prompt, Stdout cancel_message]\<rparr>, 0)"
      using main_execute_declined by blast
    then have m: "main_safety env cfg sysCtx c w =
       (?w2\<lparr>stdin := (stdin ?w2)\<lparr>unread := r\<rparr>,
          trace := trace ?w2 @ [Stdout confirm_prompt, Stdout cancel_message]\<rparr>, 0)"
      by (simp only: main_safety_strict_yes [OF True a y])
    have c1: "count_list (?evs @ [Stdout confirm_prompt]) (Stdout danger_prompt) \<le> 1"
      by (simp add: shown_command_def danger_warning_def danger_prompt_def confirm_prompt_def
          warning_banner_def)
    have c2: "count_list (?evs @ [Stdout confirm_prompt]) (Stdout confirm_prompt) \<le> 1"
      by (simp add: shown_command_def danger_warning_def danger_prompt_def confirm_prompt_def
          warning_banner_def)
    have p: "\<forall>e\<in>set (?evs @ [Stdout confirm_prompt]). printed e"
      using printed_warning [of c ?reason] by simp
    show ?thesis
      unfolding m
      by (rule conjI, simp, rule exI [of _ "?evs @ [Stdout confirm_prompt]"])
        (use c1 c2 p in \<open>simp del: count_list.simps\<close>)
  qed
qed

section \<open>The gate: approved runs\<close>

lemma run_report_events: "\<forall>e\<in>set (fst (run_report r)). \<not> executes e"
  by (cases r rule: run_report.cases) simp_all

lemma printed_not_executes: "printed e \<Longrightarrow> \<not> executes e"
  by (cases e) simp_all

lemma approved_safe:
  "approved False input \<longleftrightarrow> (\<exists>L rest. answers input L rest \<and> standard_yes L)"
  by (auto simp: approved_def next_line_answers [symmetric] split: option.splits)

lemma approved_dangerous:
  "approved True input \<longleftrightarrow>
     (\<exists>L rest L' rest'. answers input L rest \<and> strict_yes L
        \<and> answers rest L' rest' \<and> standard_yes L')"
  by (auto simp: approved_def next_line_answers [symmetric] split: option.splits)

lemma main_safety_refused:
  assumes d: "fst (IsDangerous c (DangerousPatterns cfg))"
    and a: "approved True (unread (stdin w))"
  shows "snd (main_safety env cfg sysCtx c w) = 1
     \<and> trace (fst (main_safety env cfg sysCtx c w)) =
         trace w @ (shown_command c # danger_warning (snd (IsDangerous c (DangerousPatterns cfg)))
                      @ [Stdout confirm_prompt])
           @ [Invoke_Execute c,
              Stderr (''Error: refused to execute dangerous command: ''
                        @ snd (IsDangerous c (DangerousPatterns cfg)) @ [newline])]"
proof -
  from a obtain L rest L' rest' where 1: "answers (unread (stdin w)) L rest" "strict_yes L"
    and 2: "answers rest L' rest'" "standard_yes L'"
    unfolding approved_dangerous by blast
  let ?w2 = "w\<lparr>stdin := (stdin w)\<lparr>unread := rest\<rparr>,
      trace := trace w @ shown_command c # danger_warning (snd (IsDangerous c (DangerousPatterns cfg)))\<rparr>"
  from 2 have "answers (unread (stdin ?w2)) L' rest'"
    by simp
  from main_execute_refused [OF this 2(2) d] show ?thesis
    by (simp add: main_safety_strict_yes [OF d 1])
qed

lemma main_safety_run:
  assumes d: "\<not> fst (IsDangerous c (DangerousPatterns cfg))"
    and a: "approved False (unread (stdin w))"
  shows "snd (main_safety env cfg sysCtx c w) = snd (run_report (cmd_Run env (shell_of sysCtx) c))
     \<and> trace (fst (main_safety env cfg sysCtx c w)) =
         trace w @ [shown_command c, Stdout confirm_prompt, Invoke_Execute c,
                    Run_shell (shell_of sysCtx) c]
           @ fst (run_report (cmd_Run env (shell_of sysCtx) c))"
proof -
  from a obtain L rest where 1: "answers (unread (stdin w)) L rest" "standard_yes L"
    unfolding approved_safe by blast
  let ?w1 = "w\<lparr>trace := trace w @ [shown_command c]\<rparr>"
  from 1 have "answers (unread (stdin ?w1)) L rest"
    by simp
  from main_execute_run [OF this 1(2) d] show ?thesis
    by (simp add: main_safety_safe [OF d])
qed

lemma main_safety_events:
  "\<exists>evs. trace (fst (main_safety env cfg sysCtx c w)) = trace w @ evs
     \<and> (\<forall>e\<in>set evs. executes e \<longrightarrow>
           approved (fst (IsDangerous c (DangerousPatterns cfg))) (unread (stdin w))
           \<and> (e = Invoke_Execute c
              \<or> e = Run_shell (shell_of sysCtx) c \<and> \<not> fst (IsDangerous c (DangerousPatterns cfg))))"
proof (cases "approved (fst (IsDangerous c (DangerousPatterns cfg))) (unread (stdin w))")
  case False
  then have "declined (fst (IsDangerous c (DangerousPatterns cfg))) (unread (stdin w))"
    by (rule not_approved_declined)
  from main_safety_declined [OF this, of env sysCtx]
  obtain evs where "trace (fst (main_safety env cfg sysCtx c w)) = trace w @ evs @ [Stdout cancel_message]"
    and "\<forall>e\<in>set evs. printed e"
    by blast
  then have "trace (fst (main_safety env cfg sysCtx c w)) = trace w @ (evs @ [Stdout cancel_message])
      \<and> (\<forall>e\<in>set (evs @ [Stdout cancel_message]). \<not> executes e)"
    by (auto simp: printed_not_executes)
  then show ?thesis by blast
next
  case True
  show ?thesis
  proof (cases "fst (IsDangerous c (DangerousPatterns cfg))")
    case d: True
    with True have "approved True (unread (stdin w))" by simp
    from main_safety_refused [OF d this, of env sysCtx] True show ?thesis
      by (auto simp: shown_command_def danger_warning_def)
  next
    case d: False
    with True have "approved False (unread (stdin w))" by simp
    from main_safety_run [OF d this, of env sysCtx] True d run_report_events show ?thesis
      by (auto simp: shown_command_def)
  qed
qed

section \<open>The confirmation prompts and the executor\<close>





text \<open>
  Claim C5. \<^verbatim>\<open>Execute\<close>, called with a command that its own patterns classify as
  Dangerous, returns the empty output and the refusal error that carries the reason. The
  only event it adds is its own invocation, so no subprocess is started, and the refusal
  differs from every error of a failed execution.
\<close>

theorem Execute_refuses_dangerous:
  assumes "fst (IsDangerous command (dangerousPatterns e))"
  shows "Execute run e command w =
     (([], Some (errorString (''refused to execute dangerous command: ''
                   @ snd (IsDangerous command (dangerousPatterns e))))),
      w\<lparr>trace := trace w @ [Invoke_Execute command]\<rparr>)
   \<and> (\<forall>reason msg. errorString (''refused to execute dangerous command: '' @ reason)
         \<noteq> errorString (''command execution failed: '' @ msg))"
  using Execute_dangerous [OF assms] by simp

theorem Execute_refuses_dangerous_witness:
  "fst (IsDangerous ''rm -rf /tmp/test'' (dangerousPatterns (NewSafeExecutor [''rm -rf''] ''/bin/zsh'')))
   \<and> Execute (cmd_Run (example_env [])) (NewSafeExecutor [''rm -rf''] ''/bin/zsh'')
       ''rm -rf /tmp/test'' (example_world []) =
     (([], Some (errorString
         ''refused to execute dangerous command: Command contains dangerous pattern: rm -rf'')),
      \<lparr>stdin = \<lparr>unread = [], at_end = EOF\<rparr>, trace = [Invoke_Execute ''rm -rf /tmp/test'']\<rparr>)"
proof -
  have d: "fst (IsDangerous ''rm -rf /tmp/test'' (dangerousPatterns (NewSafeExecutor [''rm -rf''] ''/bin/zsh'')))"
    by code_simp
  have r: "snd (IsDangerous ''rm -rf /tmp/test'' (dangerousPatterns (NewSafeExecutor [''rm -rf''] ''/bin/zsh'')))
      = ''Command contains dangerous pattern: rm -rf''"
    by code_simp
  from Execute_refuses_dangerous [OF d, of "cmd_Run (example_env [])" "example_world []"] d r
  show ?thesis
    by (simp add: example_world_def)
qed

section \<open>The program end to end\<close>

lemma example_generated: "generated (example_env c) getDefaultConfig example_ctx c"
  by (simp add: generated_def example_env_def getDefaultConfig_def)



text \<open>
  Claim C10. For a generated command that the configured patterns classify as Dangerous, no
  run starts a subprocess, whatever the user types. When the user answers \<open>yes\<close> at the
  strict prompt and accepts the standard prompt, \<^verbatim>\<open>Execute\<close> is called, refuses, and the
  process reports the refusal on standard error and exits with status 1.
\<close>

theorem confirmed_dangerous_is_refused:
  assumes "generated env cfg sysCtx c" and "fst (IsDangerous c (DangerousPatterns cfg))"
  shows "(\<forall>sh c'. Run_shell sh c' \<notin> set (drop (length (trace w)) (trace (fst (main env w)))))
     \<and> (approved True (unread (stdin w)) \<longrightarrow>
          snd (main env w) = 1
          \<and> trace (fst (main env w)) =
              trace w @ (shown_command c # danger_warning (snd (IsDangerous c (DangerousPatterns cfg)))
                           @ [Stdout confirm_prompt])
                @ [Invoke_Execute c,
                   Stderr (''Error: refused to execute dangerous command: ''
                             @ snd (IsDangerous c (DangerousPatterns cfg)) @ [newline])])"
proof -
  obtain evs where t: "trace (fst (main_safety env cfg sysCtx c w)) = trace w @ evs"
    and e: "\<forall>e\<in>set evs. executes e \<longrightarrow>
           approved (fst (IsDangerous c (DangerousPatterns cfg))) (unread (stdin w))
           \<and> (e = Invoke_Execute c
              \<or> e = Run_shell (shell_of sysCtx) c \<and> \<not> fst (IsDangerous c (DangerousPatterns cfg)))"
    using main_safety_events by blast
  have "Run_shell sh c' \<notin> set evs" for sh c'
  proof
    assume "Run_shell sh c' \<in> set evs"
    with e have "Run_shell sh c' = Invoke_Execute c
        \<or> Run_shell sh c' = Run_shell (shell_of sysCtx) c \<and> \<not> fst (IsDangerous c (DangerousPatterns cfg))"
      by (metis executes.simps(2))
    with assms(2) show False by simp
  qed
  with t have "\<forall>sh c'. Run_shell sh c' \<notin> set (drop (length (trace w)) (trace (fst (main env w))))"
    by (simp add: main_generated [OF assms(1)])
  with main_safety_refused [OF assms(2), of w env sysCtx] show ?thesis
    by (simp only: main_generated [OF assms(1)]) blast
qed

theorem confirmed_dangerous_is_refused_witness:
  "fst (IsDangerous ''rm -rf /home/user'' (DangerousPatterns getDefaultConfig))
   \<and> approved True (unread (stdin (example_world (''yes'' @ [newline] @ ''y'' @ [newline]))))
   \<and> snd (main (example_env ''rm -rf /home/user'')
            (example_world (''yes'' @ [newline] @ ''y'' @ [newline]))) = 1
   \<and> (\<forall>sh c'. Run_shell sh c' \<notin> set (drop (length (trace (example_world (''yes'' @ [newline] @ ''y'' @ [newline]))))
          (trace (fst (main (example_env ''rm -rf /home/user'')
            (example_world (''yes'' @ [newline] @ ''y'' @ [newline])))))))"
proof -
  have d: "fst (IsDangerous ''rm -rf /home/user'' (DangerousPatterns getDefaultConfig))"
    by code_simp
  have a: "approved True (unread (stdin (example_world (''yes'' @ [newline] @ ''y'' @ [newline]))))"
    by code_simp
  from confirmed_dangerous_is_refused [OF example_generated d,
      of "example_world (''yes'' @ [newline] @ ''y'' @ [newline])"] d a
  show ?thesis by blast
qed



text \<open>
  Claim C6. The run of the spec's fourth scenario: the command \<open>rm -rf /home/user\<close> under
  the default patterns, \<open>yes\<close> at the strict prompt and a bare Enter at the standard
  prompt. The gate lets the command through and \<^verbatim>\<open>Execute\<close> is called, but it refuses:
  there is no \<open>Run_shell\<close> event and the exit status is 1.
\<close>

theorem dangerous_end_to_end_example:
  "main (example_env ''rm -rf /home/user'') (example_world (''yes'' @ [newline] @ [newline])) =
     (\<lparr>stdin = \<lparr>unread = [], at_end = EOF\<rparr>,
       trace =
         [Stdout (''Command: rm -rf /home/user'' @ [newline]),
          Stdout warning_banner,
          Stdout (''Reason: Command contains dangerous pattern: rm -rf /'' @ [newline]),
          Stdout danger_prompt,
          Stdout confirm_prompt,
          Invoke_Execute ''rm -rf /home/user'',
          Stderr (''Error: refused to execute dangerous command: ''
                    @ ''Command contains dangerous pattern: rm -rf /'' @ [newline])]\<rparr>,
      1)"
  by code_simp

end
